theory Spec2Isabelle
  imports Main
begin

section \<open>Objects, messages and failures\<close>

text \<open>
  The program is \<^verbatim>\<open>wrap_function_multiprocess.py\<close>: the class \<^verbatim>\<open>Timeout\<close>, which runs a
  function in a child process and waits for its outcome on a one-way pipe, and the
  function \<^verbatim>\<open>_target\<close>, which is what the child process executes.

  Python objects that cross the pipe are either objects of the wrapped function (its
  return value or the exception it raised) or the error that \<^verbatim>\<open>send\<close> raised when an
  object could not be serialised. \<open>PicklingError x\<close> is the error of a failed send whose
  payload is the function's object \<open>x\<close>, or is itself an error about \<open>x\<close>: the error of
  the failed send of an error is not told apart from that error.
\<close>

datatype 'o obj = Obj 'o | PicklingError 'o

fun about :: "'o obj \<Rightarrow> 'o" where
  "about (Obj x) = x"
| "about (PicklingError x) = x"

text \<open>
  The two kinds of message \<^verbatim>\<open>_target\<close> writes: the string \<^verbatim>\<open>'started'\<close> and the pair
  \<^verbatim>\<open>(exception_occured, payload)\<close>.
\<close>

datatype 'o msg = Started | Outcome bool "'o obj"

text \<open>
  What a method of \<^verbatim>\<open>Timeout\<close> can raise. \<open>ChannelClosed\<close> is the \<^verbatim>\<open>EOFError\<close> of
  \<^verbatim>\<open>recv\<close> at the end of the stream, \<open>UnpicklingError\<close> the exception \<^verbatim>\<open>recv\<close> raises when
  it cannot rebuild the payload of a message it has read, \<open>OSError\<close> the use of a closed
  handle,
  \<open>ValueError\<close> the unpacking of a message that is not a pair, \<open>AttributeError\<close> an
  attribute access on \<^verbatim>\<open>None\<close>, \<open>AssertionError\<close> the join of a process that was never
  started.
\<close>

datatype ('k, 'o) failure =
    TimeoutFailure 'k string
  | Raised "'o obj"
  | ChannelClosed
  | UnpicklingError "'o obj"
  | OSError
  | ValueError
  | AttributeError
  | AssertionError

text \<open>
  The behaviour of \<^verbatim>\<open>function(*args, **kwargs)\<close>: it returns an object or raises one
  after some running time, or it never comes back. Time is counted in whole time-units.
\<close>

datatype 'o computation = Returns nat 'o | Raises nat 'o | Diverges

text \<open>
  How an object fares on its way through the pipe: the sender serialises it and the
  receiver rebuilds it (\<open>Intact\<close>), the sender serialises it but the receiver cannot
  rebuild it (\<open>LoadFails\<close>), or the sender cannot serialise it (\<open>DumpFails\<close>).
\<close>

datatype transfer = Intact | LoadFails | DumpFails

text \<open>
  What the code reads from the platform: \<^verbatim>\<open>sys.version_info\<close> (major, minor), the
  answers of the helpers \<^verbatim>\<open>is_system_windows()\<close> and \<^verbatim>\<open>is_in_main_thread()\<close> (imported
  from \<^verbatim>\<open>wrap_helper\<close>), the time a new process needs before it executes the first
  instruction of \<^verbatim>\<open>_target\<close>, how each object of the function fares in the pipe, how the
  error of a failed send of that object fares when it is sent in turn, and whether the
  child ignores the termination signal.
\<close>

record 'o platform =
  version_info :: "nat \<times> nat"
  system_windows :: bool
  in_main_thread :: bool
  startup :: nat
  pickling :: "'o \<Rightarrow> transfer"
  error_pickling :: "'o \<Rightarrow> transfer"
  ignores_sigterm :: bool

fun transfer_of :: "'o platform \<Rightarrow> 'o obj \<Rightarrow> transfer" where
  "transfer_of pf (Obj x) = pickling pf x"
| "transfer_of pf (PicklingError x) = error_pickling pf x"

text \<open>An object is picklable when it can be pickled and unpickled.\<close>

definition picklable :: "'o platform \<Rightarrow> 'o \<Rightarrow> bool" where
  "picklable pf x = (pickling pf x = Intact)"

fun version_lt :: "nat \<times> nat \<Rightarrow> nat \<times> nat \<Rightarrow> bool" where
  "version_lt (a, b) (c, d) = (a < c \<or> (a = c \<and> b < d))"

section \<open>The child process: \<^verbatim>\<open>_target\<close>\<close>

text \<open>
  The child's side of the pipe: its clock, the messages it has written with the time of
  writing (oldest first), and when it closed its handle to the write end.
\<close>

record 'o child =
  clock :: nat
  written :: "(nat \<times> 'o msg) list"
  closed :: "nat option"

fun pickle_failure :: "'o platform \<Rightarrow> 'o msg \<Rightarrow> 'o obj option" where
  "pickle_failure pf (Outcome b p) =
     (if transfer_of pf p = DumpFails then Some (PicklingError (about p)) else None)"
| "pickle_failure pf Started = None"

text \<open>
  \<^verbatim>\<open>child_conn.send(m)\<close> serialises the message and then writes it: either the whole
  message is in the pipe, or the serialisation raised and nothing was written. The
  first component of the result is the exception raised, if any.
\<close>

definition send :: "'o platform \<Rightarrow> 'o msg \<Rightarrow> 'o child \<Rightarrow> 'o obj option \<times> 'o child" where
  "send pf m c =
     (case pickle_failure pf m of
        Some err \<Rightarrow> (Some err, c)
      | None \<Rightarrow> (None, c\<lparr>written := written c @ [(clock c, m)]\<rparr>))"

definition close_child :: "'o child \<Rightarrow> 'o child" where
  "close_child c = (case closed c of None \<Rightarrow> c\<lparr>closed := Some (clock c)\<rparr> | Some t \<Rightarrow> c)"

text \<open>How the \<^verbatim>\<open>try\<close> block of \<^verbatim>\<open>_target\<close> ends.\<close>

datatype 'o try_result = Normal | Exc "'o obj" | Hang

text \<open>
  Lines 86 to 89: the start signal unless the hard flag is set, then the call of the
  function, then the success message. An exception of any of the three leaves the block.
\<close>

definition try_block ::
  "'o platform \<Rightarrow> 'o child \<Rightarrow> bool \<Rightarrow> ('a \<Rightarrow> 'o computation) \<Rightarrow> 'a \<Rightarrow> 'o try_result \<times> 'o child"
where
  "try_block pf c dec_hard f args =
     (let (x0, c0) = (if \<not> dec_hard then send pf Started c else (None, c)) in
      case x0 of
        Some e \<Rightarrow> (Exc e, c0)
      | None \<Rightarrow>
          (case f args of
             Diverges \<Rightarrow> (Hang, c0)
           | Raises d e \<Rightarrow> (Exc (Obj e), c0\<lparr>clock := clock c0 + d\<rparr>)
           | Returns d v \<Rightarrow>
               (let (x1, c1) = send pf (Outcome False (Obj v)) (c0\<lparr>clock := clock c0 + d\<rparr>) in
                case x1 of
                  Some e \<Rightarrow> (Exc e, c1)
                | None \<Rightarrow> (Normal, c1))))"

text \<open>
  How the child process ends: \<^verbatim>\<open>_target\<close> returned, an exception left \<^verbatim>\<open>_target\<close>, or
  the process never ends by itself.
\<close>

datatype 'o exit_status = Exited | Uncaught "'o obj" | Running

text \<open>
  \<^verbatim>\<open>_target(child_conn, dec_hard_timeout, function, *args, **kwargs)\<close>: the \<^verbatim>\<open>try\<close>
  block, the bare \<^verbatim>\<open>except\<close> handler that sends \<^verbatim>\<open>(True, sys.exc_info()[1])\<close>, and the
  \<^verbatim>\<open>finally\<close> clause that closes the handle. An exception raised inside the handler
  leaves the function after the \<^verbatim>\<open>finally\<close> clause has run.
\<close>

definition target ::
  "'o platform \<Rightarrow> 'o child \<Rightarrow> bool \<Rightarrow> ('a \<Rightarrow> 'o computation) \<Rightarrow> 'a \<Rightarrow> 'o exit_status \<times> 'o child"
where
  "target pf child_conn dec_hard f args =
     (let (r, c1) = try_block pf child_conn dec_hard f args in
      case r of
        Hang \<Rightarrow> (Running, c1)
      | Normal \<Rightarrow> (Exited, close_child c1)
      | Exc e \<Rightarrow>
          (let (x, c2) = send pf (Outcome True e) c1 in
           case x of
             None \<Rightarrow> (Exited, close_child c2)
           | Some e' \<Rightarrow> (Uncaught e', close_child c2)))"

section \<open>The parent process: the class \<^verbatim>\<open>Timeout\<close>\<close>

datatype handle = Open | Closed

record process =
  daemon :: bool
  started :: bool
  ends :: "nat option"
  killed :: "nat option"

text \<open>The calls the object makes on the pipe and on the process, in the order made.\<close>

datatype call =
    CPipe | CProcess | CDaemon bool | CStart | CRecv | CPoll "nat option"
  | CIsAlive | CTerminate | CJoin nat | CClose

text \<open>
  The attributes of a \<^verbatim>\<open>Timeout\<close> object, and the part of the world its methods act on:
  the clock, the content of the pipe (the messages the child writes, each with its time
  of writing, those not yet received), the time at which the child's handle to the write
  end closes, and the record of calls. \<open>parent_conn\<close> is the read end; \<open>child_conn\<close> is
  the parent's own handle to the write end, a second handle beside the one the child
  process holds. \<open>the_function\<close> is the attribute \<^verbatim>\<open>function\<close>, applied to the positional and
  keyword arguments of the call taken together. Two more facts of the world are fixed
  when the child is started: which payloads \<^verbatim>\<open>recv\<close> will fail to rebuild, and whether
  the child ignores the termination signal.
\<close>

record ('k, 'o, 'a) Timeout =
  dec_timeout :: "nat option"
  dec_hard_timeout :: bool
  the_function :: "'a \<Rightarrow> 'o computation"
  timeout_exception :: 'k
  exception_message :: string
  process :: "process option"
  parent_conn :: "handle option"
  child_conn :: "handle option"
  now :: nat
  channel :: "(nat \<times> 'o msg) list"
  writer_closed :: "nat option"
  unloadable :: "'o obj \<Rightarrow> bool"
  sigterm_ignored :: bool
  calls :: "call list"

text \<open>\<^verbatim>\<open>__init__\<close>; time is counted from the construction of the object.\<close>

definition init ::
  "('a \<Rightarrow> 'o computation) \<Rightarrow> 'k \<Rightarrow> string \<Rightarrow> nat option \<Rightarrow> bool \<Rightarrow> ('k, 'o, 'a) Timeout"
where
  "init f timeout_exc exc_message timeout hard =
     \<lparr>dec_timeout = timeout, dec_hard_timeout = hard, the_function = f,
      timeout_exception = timeout_exc, exception_message = exc_message,
      process = None, parent_conn = None, child_conn = None,
      now = 0, channel = [], writer_closed = None,
      unloadable = (\<lambda>p. False), sigterm_ignored = False, calls = []\<rparr>"

subsection \<open>Methods as state transformers\<close>

text \<open>
  A method takes the state and gives \<open>None\<close> when it blocks forever, and otherwise the
  new state with either the exception raised (\<open>Inl\<close>) or the value returned (\<open>Inr\<close>).
\<close>

type_synonym ('k, 'o, 'a, 'r) action =
  "('k, 'o, 'a) Timeout \<Rightarrow> ((('k, 'o) failure + 'r) \<times> ('k, 'o, 'a) Timeout) option"

definition ret :: "'r \<Rightarrow> ('k, 'o, 'a, 'r) action" where
  "ret x s = Some (Inr x, s)"

definition throw :: "('k, 'o) failure \<Rightarrow> ('k, 'o, 'a, 'r) action" where
  "throw e s = Some (Inl e, s)"

definition seq ::
  "('k, 'o, 'a, 'r) action \<Rightarrow> ('r \<Rightarrow> ('k, 'o, 'a, 'q) action) \<Rightarrow> ('k, 'o, 'a, 'q) action"
where
  "seq m f s =
     (case m s of
        None \<Rightarrow> None
      | Some (Inl e, s1) \<Rightarrow> Some (Inl e, s1)
      | Some (Inr x, s1) \<Rightarrow> f x s1)"

definition logged :: "call \<Rightarrow> ('k, 'o, 'a) Timeout \<Rightarrow> ('k, 'o, 'a) Timeout" where
  "logged c s = s\<lparr>calls := calls s @ [c]\<rparr>"

subsection \<open>The pipe and the process, as the library documents them\<close>

text \<open>
  \<^verbatim>\<open>multiprocessing.Pipe(duplex=False)\<close>: a fresh, empty pipe and two open handles.
\<close>

definition Pipe :: "('k, 'o, 'a, unit) action" where
  "Pipe s =
     ret () (logged CPipe (s\<lparr>parent_conn := Some Open, child_conn := Some Open,
                            channel := [], writer_closed := None\<rparr>))"

text \<open>\<^verbatim>\<open>multiprocessing.Process(target=_target, args=args, kwargs=kwargs)\<close>.\<close>

definition Process :: "('k, 'o, 'a, unit) action" where
  "Process s =
     ret () (logged CProcess
       (s\<lparr>process := Some \<lparr>daemon = False, started = False, ends = None, killed = None\<rparr>\<rparr>))"

definition set_daemon :: "bool \<Rightarrow> ('k, 'o, 'a, unit) action" where
  "set_daemon d s =
     (case process s of
        None \<Rightarrow> throw AttributeError s
      | Some p \<Rightarrow> ret () (logged (CDaemon d) (s\<lparr>process := Some (p\<lparr>daemon := d\<rparr>)\<rparr>)))"

text \<open>
  \<^verbatim>\<open>start()\<close> returns at once. The child executes \<^verbatim>\<open>_target\<close> with the arguments
  \<^verbatim>\<open>(child_conn, dec_hard_timeout, function) + args\<close>, beginning \<open>startup\<close> time-units
  later; what it writes, and when, is from then on the content of the pipe. The child's
  handle closes when \<^verbatim>\<open>_target\<close> closes it.
\<close>

definition child_run ::
  "'o platform \<Rightarrow> ('k, 'o, 'a) Timeout \<Rightarrow> 'a \<Rightarrow> 'o exit_status \<times> 'o child"
where
  "child_run pf s args =
     target pf \<lparr>clock = now s + startup pf, written = [], closed = None\<rparr>
       (dec_hard_timeout s) (the_function s) args"

definition start :: "'o platform \<Rightarrow> 'a \<Rightarrow> ('k, 'o, 'a, unit) action" where
  "start pf args s =
     (case process s of
        None \<Rightarrow> throw AttributeError s
      | Some p \<Rightarrow>
          (let (st, c) = child_run pf s args
           in ret () (logged CStart
                (s\<lparr>process := Some (p\<lparr>started := True,
                                        ends := (case st of Running \<Rightarrow> None | _ \<Rightarrow> Some (clock c))\<rparr>),
                   channel := written c,
                   writer_closed := closed c,
                   unloadable := (\<lambda>p. transfer_of pf p = LoadFails),
                   sigterm_ignored := ignores_sigterm pf\<rparr>))))"

text \<open>
  The reader sees the end of the stream once every handle to the write end is closed:
  the one the child process got with its arguments, and the one the parent keeps in
  \<^verbatim>\<open>self.__child_conn\<close>. While the parent's handle is open the stream has no end.
\<close>

definition eof_time :: "('k, 'o, 'a) Timeout \<Rightarrow> nat option" where
  "eof_time s = (case child_conn s of Some Open \<Rightarrow> None | _ \<Rightarrow> writer_closed s)"

text \<open>When the read end becomes readable: at the next message, or at the end of the stream.\<close>

definition readable_at :: "('k, 'o, 'a) Timeout \<Rightarrow> nat option" where
  "readable_at s = (case channel s of (t, m) # rest \<Rightarrow> Some t | [] \<Rightarrow> eof_time s)"

text \<open>
  What rebuilding a message that has been read raises, if anything. The start signal is
  a string and is always rebuilt.
\<close>

fun load_failure :: "('o obj \<Rightarrow> bool) \<Rightarrow> 'o msg \<Rightarrow> ('k, 'o) failure option" where
  "load_failure u (Outcome b p) = (if u p then Some (UnpicklingError p) else None)"
| "load_failure u Started = None"

text \<open>
  \<^verbatim>\<open>recv()\<close> blocks until there is something to receive, reads the oldest message and
  rebuilds it: it returns the message, or raises what the rebuilding raised, and the
  message is gone from the pipe either way. At the end of the stream it raises
  \<^verbatim>\<open>EOFError\<close>.
\<close>

definition recv :: "('k, 'o, 'a, 'o msg) action" where
  "recv s =
     (case parent_conn s of
        None \<Rightarrow> throw AttributeError s
      | Some Closed \<Rightarrow> throw OSError s
      | Some Open \<Rightarrow>
          (case channel s of
             (t, m) # rest \<Rightarrow>
               (case load_failure (unloadable s) m of
                  Some err \<Rightarrow>
                    throw err (logged CRecv (s\<lparr>now := max (now s) t, channel := rest\<rparr>))
                | None \<Rightarrow>
                    ret m (logged CRecv (s\<lparr>now := max (now s) t, channel := rest\<rparr>)))
           | [] \<Rightarrow>
               (case eof_time s of
                  None \<Rightarrow> None
                | Some t \<Rightarrow> throw ChannelClosed (logged CRecv (s\<lparr>now := max (now s) t\<rparr>)))))"

text \<open>
  \<^verbatim>\<open>poll(timeout)\<close> tells whether there is anything to read (a message, or the end of the
  stream), and consumes nothing. With \<^verbatim>\<open>None\<close> the wait has no bound; a number is the
  longest time to block, so with \<open>0\<close> the answer comes at once.
\<close>

definition poll :: "nat option \<Rightarrow> ('k, 'o, 'a, bool) action" where
  "poll timeout s =
     (case parent_conn s of
        None \<Rightarrow> throw AttributeError s
      | Some Closed \<Rightarrow> throw OSError s
      | Some Open \<Rightarrow>
          (case readable_at s of
             None \<Rightarrow>
               (case timeout of
                  None \<Rightarrow> None
                | Some d \<Rightarrow> ret False (logged (CPoll timeout) (s\<lparr>now := now s + d\<rparr>)))
           | Some t \<Rightarrow>
               (case timeout of
                  None \<Rightarrow> ret True (logged (CPoll timeout) (s\<lparr>now := max (now s) t\<rparr>))
                | Some d \<Rightarrow>
                    if t \<le> now s + d
                    then ret True (logged (CPoll timeout) (s\<lparr>now := max (now s) t\<rparr>))
                    else ret False (logged (CPoll timeout) (s\<lparr>now := now s + d\<rparr>)))))"

text \<open>\<^verbatim>\<open>close()\<close> on the read end; closing a closed handle does nothing.\<close>

definition close :: "('k, 'o, 'a, unit) action" where
  "close s =
     (case parent_conn s of
        None \<Rightarrow> throw AttributeError s
      | Some h \<Rightarrow> ret () (logged CClose (s\<lparr>parent_conn := Some Closed\<rparr>)))"

text \<open>When the process is over: at its kill, or else at its own end.\<close>

definition over_at :: "process \<Rightarrow> nat option" where
  "over_at p = (case killed p of Some k \<Rightarrow> Some k | None \<Rightarrow> ends p)"

definition alive :: "process \<Rightarrow> nat \<Rightarrow> bool" where
  "alive p t = (started p \<and> (case over_at p of None \<Rightarrow> True | Some e \<Rightarrow> t < e))"

definition is_alive :: "('k, 'o, 'a, bool) action" where
  "is_alive s =
     (case process s of
        None \<Rightarrow> throw AttributeError s
      | Some p \<Rightarrow> ret (alive p (now s)) (logged CIsAlive s))"

text \<open>
  \<^verbatim>\<open>terminate()\<close> sends the termination signal. A child that ignores it goes on as if
  nothing had happened. Any other child that is still alive dies now: what it had not
  yet written is never written, and its handle to the write end closes with it.
\<close>

definition terminate :: "('k, 'o, 'a, unit) action" where
  "terminate s =
     (case process s of
        None \<Rightarrow> throw AttributeError s
      | Some p \<Rightarrow>
          if \<not> started p then throw AttributeError s
          else if alive p (now s) \<and> \<not> sigterm_ignored s
          then ret () (logged CTerminate
                 (s\<lparr>process := Some (p\<lparr>killed := Some (now s)\<rparr>),
                    channel := filter (\<lambda>(t, m). t \<le> now s) (channel s),
                    writer_closed := (case writer_closed s of
                                        None \<Rightarrow> Some (now s)
                                      | Some t \<Rightarrow> Some (min t (now s)))\<rparr>))
          else ret () (logged CTerminate s))"

text \<open>
  \<^verbatim>\<open>join(timeout=b)\<close>, called at time \<open>t\<close>, returns when the process is over, or after
  \<open>b\<close> time-units.
\<close>

definition join_returns :: "process \<Rightarrow> nat \<Rightarrow> nat \<Rightarrow> nat" where
  "join_returns p t b =
     (case over_at p of None \<Rightarrow> t + b | Some e \<Rightarrow> min (t + b) (max t e))"

definition join :: "nat \<Rightarrow> ('k, 'o, 'a, unit) action" where
  "join b s =
     (case process s of
        None \<Rightarrow> throw AttributeError s
      | Some p \<Rightarrow>
          if \<not> started p then throw AssertionError s
          else ret () (logged (CJoin b) (s\<lparr>now := join_returns p (now s) b\<rparr>)))"

text \<open>
  Modelled from the spec: \<^verbatim>\<open>raise_exception\<close> of \<^verbatim>\<open>wrap_helper\<close>, a module of this
  repository whose source is not at hand. It raises the caller-configured timeout failure
  carrying the caller-configured message.
\<close>

definition raise_exception :: "'k \<Rightarrow> string \<Rightarrow> ('k, 'o, 'a, 'r) action" where
  "raise_exception exc message = throw (TimeoutFailure exc message)"

subsection \<open>The methods of \<^verbatim>\<open>Timeout\<close>\<close>

definition wait_until_process_started :: "('k, 'o, 'a, unit) action" where
  "wait_until_process_started = seq recv (\<lambda>m. ret ())"

text \<open>
  The property \<^verbatim>\<open>value\<close>: receive, unpack the pair, join for at most one time-unit, close
  the read end, then raise or return the payload. An exception of the receive or of the
  unpacking leaves the property before the join and the close.
\<close>

definition value_prop :: "('k, 'o, 'a, 'o obj) action" where
  "value_prop =
     seq recv (\<lambda>m.
       case m of
         Started \<Rightarrow> throw ValueError
       | Outcome exception_occured result \<Rightarrow>
           seq (join 1) (\<lambda>u.
           seq close (\<lambda>u.
           if exception_occured then throw (Raised result) else ret result)))"

definition cancel :: "('k, 'o, 'a, 'r) action" where
  "cancel =
     seq is_alive (\<lambda>a.
     seq (if a then terminate else ret ()) (\<lambda>u.
     seq (join 1) (\<lambda>u.
     seq close (\<lambda>u s.
     raise_exception (timeout_exception s) (exception_message s) s))))"

text \<open>
  \<^verbatim>\<open>__call__\<close> in three parts. Lines 33 to 45: the pipe, the process, its daemon flag,
  its start.
\<close>

definition spawn :: "'o platform \<Rightarrow> 'a \<Rightarrow> ('k, 'o, 'a, unit) action" where
  "spawn pf args =
     seq Pipe (\<lambda>u.
     seq Process (\<lambda>u.
     seq (if version_lt (version_info pf) (3, 0) \<and> system_windows pf \<and> \<not> in_main_thread pf
          then set_daemon False
          else set_daemon True) (\<lambda>u.
     start pf args)))"

text \<open>Lines 46 and 47.\<close>

definition await_start :: "('k, 'o, 'a, unit) action" where
  "await_start s =
     (if \<not> dec_hard_timeout s then wait_until_process_started s else ret () s)"

text \<open>Lines 48 to 51.\<close>

definition finish :: "('k, 'o, 'a, 'o obj) action" where
  "finish =
     seq (\<lambda>s. poll (dec_timeout s) s) (\<lambda>ready.
     if ready then value_prop else cancel)"

definition call :: "'o platform \<Rightarrow> 'a \<Rightarrow> ('k, 'o, 'a, 'o obj) action" where
  "call pf args = seq (spawn pf args) (\<lambda>u. seq await_start (\<lambda>u. finish))"

section \<open>Auxiliary definitions\<close>

text \<open>
  A summary of \<^verbatim>\<open>_target\<close>: the outcome message the child writes, if any, with the running
  time of the function. Lemma \<open>child_run_written\<close> below shows that this is what
  \<^verbatim>\<open>_target\<close> writes after the start signal.
\<close>

fun outcome_message :: "'o platform \<Rightarrow> 'o computation \<Rightarrow> (nat \<times> 'o msg) option" where
  "outcome_message pf Diverges = None"
| "outcome_message pf (Raises d e) =
     (if pickling pf e = DumpFails then None else Some (d, Outcome True (Obj e)))"
| "outcome_message pf (Returns d v) =
     (if pickling pf v \<noteq> DumpFails then Some (d, Outcome False (Obj v))
      else if error_pickling pf v \<noteq> DumpFails then Some (d, Outcome True (PicklingError v))
      else None)"

text \<open>
  A summary of the property \<^verbatim>\<open>value\<close>: what it raises or returns for the message it
  reads, given the payloads that cannot be rebuilt.
\<close>

fun received :: "('o obj \<Rightarrow> bool) \<Rightarrow> 'o msg \<Rightarrow> ('k, 'o) failure + 'o obj" where
  "received u Started = Inl ValueError"
| "received u (Outcome b x) =
     (if u x then Inl (UnpicklingError x) else if b then Inl (Raised x) else Inr x)"

text \<open>The answer of the poll of \<^verbatim>\<open>__call__\<close> (line 48).\<close>

definition poll_answer ::
  "'o platform \<Rightarrow> 'a \<Rightarrow> ('k, 'o, 'a) Timeout \<Rightarrow> (('k, 'o) failure + bool) option"
where
  "poll_answer pf args s =
     map_option fst
       (seq (seq (spawn pf args) (\<lambda>u. await_start)) (\<lambda>u s1. poll (dec_timeout s1) s1) s)"

text \<open>
  The states in which \<^verbatim>\<open>__call__\<close> reaches its poll: both of the parent's handles are
  open, the process has been started, and the pipe holds at most one message, which is
  not the start signal.
\<close>

definition waiting :: "('k, 'o, 'a) Timeout \<Rightarrow> bool" where
  "waiting s =
     (parent_conn s = Some Open \<and> child_conn s = Some Open \<and>
      (case process s of None \<Rightarrow> False | Some p \<Rightarrow> started p) \<and>
      (case channel s of [] \<Rightarrow> True | (t, m) # rest \<Rightarrow> m \<noteq> Started \<and> rest = []))"

text \<open>
  Concrete inputs for the examples below. On the example platform a new process needs
  two time-units to start and dies of the termination signal; the objects below 100
  cross the pipe intact, those from 100 to 799 are serialised but cannot be rebuilt, and
  those from 800 on cannot be serialised; the error of a failed send can be sent in turn
  unless it is about an object from 950 on. The stubborn platform differs in that the
  child ignores the termination signal. The functions sleep for the first component of
  their argument and then return or raise the second.
\<close>

definition example_pickling :: "nat \<Rightarrow> transfer" where
  "example_pickling x = (if x < 100 then Intact else if x < 800 then LoadFails else DumpFails)"

definition example_error_pickling :: "nat \<Rightarrow> transfer" where
  "example_error_pickling x = (if x < 950 then Intact else DumpFails)"

definition example_platform :: "nat platform" where
  "example_platform =
     \<lparr>version_info = (3, 8), system_windows = False, in_main_thread = True,
      startup = 2, pickling = example_pickling, error_pickling = example_error_pickling,
      ignores_sigterm = False\<rparr>"

definition stubborn_platform :: "nat platform" where
  "stubborn_platform = example_platform\<lparr>ignores_sigterm := True\<rparr>"

definition sleep_then_return :: "nat \<times> nat \<Rightarrow> nat computation" where
  "sleep_then_return a = Returns (fst a) (snd a)"

definition sleep_then_raise :: "nat \<times> nat \<Rightarrow> nat computation" where
  "sleep_then_raise a = Raises (fst a) (snd a)"

definition example_timeout ::
  "(nat \<times> nat \<Rightarrow> nat computation) \<Rightarrow> nat option \<Rightarrow> bool \<Rightarrow> (string, nat, nat \<times> nat) Timeout"
where
  "example_timeout f t h = init f ''TimeoutError'' ''too slow'' t h"

text \<open>
  A state right after a spawn in hard mode whose child has ended at time 3 without
  writing anything.
\<close>

definition silent_child :: "(string, nat, nat \<times> nat) Timeout" where
  "silent_child =
     (example_timeout sleep_then_raise (Some 5) True)
       \<lparr>process := Some \<lparr>daemon = True, started = True, ends = Some 3, killed = None\<rparr>,
        parent_conn := Some Open, child_conn := Some Open, writer_closed := Some 3\<rparr>"

section \<open>Sequencing\<close>

lemma seq_Some_Inr: "m s = Some (Inr x, s1) \<Longrightarrow> seq m f s = f x s1"
  by (simp add: seq_def)

lemma seq_assoc: "seq (seq m f) g = seq m (\<lambda>x. seq (f x) g)"
  by (rule ext) (simp add: seq_def split: option.splits sum.splits prod.splits)

section \<open>The child's run, case by case\<close>

lemma target_fresh:
  "target pf \<lparr>clock = t0, written = [], closed = None\<rparr> hard f args =
     (case f args of
        Diverges \<Rightarrow>
          (Running, \<lparr>clock = t0, written = (if hard then [] else [(t0, Started)]), closed = None\<rparr>)
      | Raises d e \<Rightarrow>
          if pickling pf e = DumpFails
          then (Uncaught (PicklingError e),
                \<lparr>clock = t0 + d, written = (if hard then [] else [(t0, Started)]),
                 closed = Some (t0 + d)\<rparr>)
          else (Exited, \<lparr>clock = t0 + d,
                          written = (if hard then [] else [(t0, Started)]) @
                            [(t0 + d, Outcome True (Obj e))],
                          closed = Some (t0 + d)\<rparr>)
      | Returns d v \<Rightarrow>
          if pickling pf v \<noteq> DumpFails
          then (Exited, \<lparr>clock = t0 + d,
                          written = (if hard then [] else [(t0, Started)]) @
                            [(t0 + d, Outcome False (Obj v))],
                          closed = Some (t0 + d)\<rparr>)
          else if error_pickling pf v \<noteq> DumpFails
          then (Exited, \<lparr>clock = t0 + d,
                          written = (if hard then [] else [(t0, Started)]) @
                            [(t0 + d, Outcome True (PicklingError v))],
                          closed = Some (t0 + d)\<rparr>)
          else (Uncaught (PicklingError v),
                \<lparr>clock = t0 + d, written = (if hard then [] else [(t0, Started)]),
                 closed = Some (t0 + d)\<rparr>))"
  by (simp add: target_def try_block_def send_def close_child_def
      split: computation.splits)

lemma child_run_written:
  "written (snd (child_run pf s args)) =
     (if dec_hard_timeout s then [] else [(now s + startup pf, Started)]) @
     (case outcome_message pf (the_function s args) of
        None \<Rightarrow> []
      | Some (d, m) \<Rightarrow> [(now s + startup pf + d, m)])"
  by (simp add: child_run_def target_fresh split: computation.splits)

lemma outcome_message_not_Started:
  "outcome_message pf c = Some (d, m) \<Longrightarrow> m \<noteq> Started"
  by (cases c) (auto split: if_splits)

section \<open>The effect of each call on the pipe and the process\<close>

lemma recv_message:
  "parent_conn s = Some Open \<Longrightarrow> channel s = (t, m) # rest \<Longrightarrow>
   recv s =
     Some (case load_failure (unloadable s) m of None \<Rightarrow> Inr m | Some err \<Rightarrow> Inl err,
           s\<lparr>now := max (now s) t, channel := rest, calls := calls s @ [CRecv]\<rparr>)"
  by (simp add: recv_def ret_def throw_def logged_def split: option.splits)

lemma recv_blocks:
  "parent_conn s = Some Open \<Longrightarrow> channel s = [] \<Longrightarrow> child_conn s = Some Open \<Longrightarrow> recv s = None"
  by (simp add: recv_def eof_time_def)

lemma poll_blocks:
  "parent_conn s = Some Open \<Longrightarrow> channel s = [] \<Longrightarrow> child_conn s = Some Open \<Longrightarrow>
   poll None s = None"
  by (simp add: poll_def readable_at_def eof_time_def)

lemma poll_expires:
  "parent_conn s = Some Open \<Longrightarrow> channel s = [] \<Longrightarrow> child_conn s = Some Open \<Longrightarrow>
   poll (Some d) s = Some (Inr False, s\<lparr>now := now s + d, calls := calls s @ [CPoll (Some d)]\<rparr>)"
  by (simp add: poll_def readable_at_def eof_time_def ret_def logged_def)

lemma poll_message:
  "parent_conn s = Some Open \<Longrightarrow> channel s = (t, m) # rest \<Longrightarrow>
   poll b s =
     (if (case b of None \<Rightarrow> True | Some d \<Rightarrow> t \<le> now s + d)
      then Some (Inr True, s\<lparr>now := max (now s) t, calls := calls s @ [CPoll b]\<rparr>)
      else Some (Inr False, s\<lparr>now := now s + the b, calls := calls s @ [CPoll b]\<rparr>))"
  by (simp add: poll_def readable_at_def ret_def logged_def split: option.splits)

lemma join_started:
  "process s = Some p \<Longrightarrow> started p \<Longrightarrow>
   join b s =
     Some (Inr (), s\<lparr>now := join_returns p (now s) b, calls := calls s @ [CJoin b]\<rparr>)"
  by (simp add: join_def ret_def logged_def)

lemma join_returns_bounds: "t \<le> join_returns p t b \<and> join_returns p t b \<le> t + b"
  by (simp add: join_returns_def split: option.splits)

lemma join_returns_over: "over_at p = Some e \<Longrightarrow> e \<le> t \<Longrightarrow> join_returns p t b = t"
  by (simp add: join_returns_def)

lemma close_handle:
  "parent_conn s = Some h \<Longrightarrow>
   close s = Some (Inr (), s\<lparr>parent_conn := Some Closed, calls := calls s @ [CClose]\<rparr>)"
  by (simp add: close_def ret_def logged_def)

section \<open>The effect of the methods\<close>

lemma value_prop_outcome:
  assumes "parent_conn s = Some Open" and "channel s = (t, Outcome b x) # rest"
    and "process s = Some p" and "started p"
  shows "value_prop s =
     (if unloadable s x
      then Some (Inl (UnpicklingError x),
                 s\<lparr>now := max (now s) t, channel := rest, calls := calls s @ [CRecv]\<rparr>)
      else Some (if b then Inl (Raised x) else Inr x,
                 s\<lparr>now := join_returns p (max (now s) t) 1,
                   channel := rest, parent_conn := Some Closed,
                   calls := calls s @ [CRecv, CJoin 1, CClose]\<rparr>))"
  using assms
  by (simp add: value_prop_def seq_def recv_message join_started close_handle throw_def ret_def)

lemma cancel_effect:
  assumes "process s = Some p" and "started p" and "parent_conn s = Some h"
  shows "cancel s =
     Some (Inl (TimeoutFailure (timeout_exception s) (exception_message s)),
           if alive p (now s) \<and> \<not> sigterm_ignored s
           then s\<lparr>process := Some (p\<lparr>killed := Some (now s)\<rparr>),
                  channel := filter (\<lambda>(t, m). t \<le> now s) (channel s),
                  writer_closed := (case writer_closed s of
                                      None \<Rightarrow> Some (now s)
                                    | Some t \<Rightarrow> Some (min t (now s))),
                  parent_conn := Some Closed,
                  calls := calls s @ [CIsAlive, CTerminate, CJoin 1, CClose]\<rparr>
           else s\<lparr>now := join_returns p (now s) 1,
                  parent_conn := Some Closed,
                  calls := calls s @ [CIsAlive] @ (if alive p (now s) then [CTerminate] else []) @
                             [CJoin 1, CClose]\<rparr>)"
proof -
  have a: "is_alive s = Some (Inr (alive p (now s)), s\<lparr>calls := calls s @ [CIsAlive]\<rparr>)"
    using assms by (simp add: is_alive_def ret_def logged_def)
  show ?thesis
  proof (cases "alive p (now s)")
    case True
    show ?thesis
    proof (cases "sigterm_ignored s")
      case False
      with assms True show ?thesis
        by (simp add: cancel_def seq_def a terminate_def join_def close_def
            raise_exception_def throw_def ret_def logged_def over_at_def join_returns_def
            cong: option.case_cong)
    next
      case ign: True
      with assms True show ?thesis
        by (simp add: cancel_def seq_def a terminate_def join_def close_def
            raise_exception_def throw_def ret_def logged_def)
    qed
  next
    case False
    with assms show ?thesis
      by (simp add: cancel_def seq_def a join_def close_def
          raise_exception_def throw_def ret_def logged_def)
  qed
qed

lemma spawn_effect:
  "spawn pf args s =
     Some (Inr (),
       s\<lparr>parent_conn := Some Open, child_conn := Some Open,
         process := Some
           \<lparr>daemon = \<not> (version_lt (version_info pf) (3, 0) \<and> system_windows pf \<and>
                         \<not> in_main_thread pf),
            started = True,
            ends = (case fst (child_run pf s args) of
                      Running \<Rightarrow> None
                    | _ \<Rightarrow> Some (clock (snd (child_run pf s args)))),
            killed = None\<rparr>,
         channel := written (snd (child_run pf s args)),
         writer_closed := closed (snd (child_run pf s args)),
         unloadable := (\<lambda>p. transfer_of pf p = LoadFails),
         sigterm_ignored := ignores_sigterm pf,
         calls := calls s @ [CPipe, CProcess,
                    CDaemon (\<not> (version_lt (version_info pf) (3, 0) \<and> system_windows pf \<and>
                                \<not> in_main_thread pf)),
                    CStart]\<rparr>)"
  by (simp add: spawn_def seq_def Pipe_def Process_def set_daemon_def start_def ret_def
      logged_def split_beta child_run_def cong: exit_status.case_cong)

lemma launch_effect:
  "seq (spawn pf args) (\<lambda>u. await_start) s =
     Some (Inr (),
       s\<lparr>parent_conn := Some Open, child_conn := Some Open,
         process := Some
           \<lparr>daemon = \<not> (version_lt (version_info pf) (3, 0) \<and> system_windows pf \<and>
                         \<not> in_main_thread pf),
            started = True,
            ends = (case fst (child_run pf s args) of
                      Running \<Rightarrow> None
                    | _ \<Rightarrow> Some (clock (snd (child_run pf s args)))),
            killed = None\<rparr>,
         now := (if dec_hard_timeout s then now s else now s + startup pf),
         channel :=
           (case outcome_message pf (the_function s args) of
              None \<Rightarrow> []
            | Some (d, m) \<Rightarrow> [(now s + startup pf + d, m)]),
         writer_closed := closed (snd (child_run pf s args)),
         unloadable := (\<lambda>p. transfer_of pf p = LoadFails),
         sigterm_ignored := ignores_sigterm pf,
         calls := calls s @ [CPipe, CProcess,
                    CDaemon (\<not> (version_lt (version_info pf) (3, 0) \<and> system_windows pf \<and>
                                \<not> in_main_thread pf)),
                    CStart] @ (if dec_hard_timeout s then [] else [CRecv])\<rparr>)"
proof (cases "dec_hard_timeout s")
  case True
  then show ?thesis
    by (simp add: seq_def spawn_effect await_start_def ret_def child_run_written)
next
  case False
  then show ?thesis
    by (simp add: seq_def spawn_effect await_start_def wait_until_process_started_def
        recv_def ret_def logged_def child_run_written)
qed

lemma launch_waiting:
  assumes "seq (spawn pf args) (\<lambda>u. await_start) s = Some (r, s1)"
  shows "r = Inr () \<and> waiting s1 \<and> dec_timeout s1 = dec_timeout s \<and>
         timeout_exception s1 = timeout_exception s \<and>
         exception_message s1 = exception_message s \<and>
         unloadable s1 = (\<lambda>p. transfer_of pf p = LoadFails)"
  using assms
  by (auto simp: launch_effect waiting_def outcome_message_not_Started split: option.splits)

lemma call_finish:
  assumes "seq (spawn pf args) (\<lambda>u. await_start) s = Some (Inr (), s1)"
  shows "call pf args s = finish s1"
proof -
  have "call pf args s = seq (seq (spawn pf args) (\<lambda>u. await_start)) (\<lambda>u. finish) s"
    by (simp add: call_def seq_assoc)
  also have "\<dots> = finish s1"
    by (subst seq_def) (simp add: assms)
  finally show ?thesis .
qed

lemma finish_waiting:
  assumes "waiting s"
  shows "finish s =
     (case channel s of
        [] \<Rightarrow>
          (case dec_timeout s of
             None \<Rightarrow> None
           | Some d \<Rightarrow> cancel (s\<lparr>now := now s + d, calls := calls s @ [CPoll (Some d)]\<rparr>))
      | (t, m) # rest \<Rightarrow>
          if (case dec_timeout s of None \<Rightarrow> True | Some d \<Rightarrow> t \<le> now s + d)
          then value_prop (s\<lparr>now := max (now s) t, calls := calls s @ [CPoll (dec_timeout s)]\<rparr>)
          else cancel (s\<lparr>now := now s + the (dec_timeout s),
                         calls := calls s @ [CPoll (dec_timeout s)]\<rparr>))"
proof (cases "channel s")
  case Nil
  with assms show ?thesis
    by (cases "dec_timeout s")
       (simp_all add: finish_def seq_def waiting_def poll_blocks poll_expires)
next
  case (Cons tm rest)
  obtain t m where tm: "tm = (t, m)" by (cases tm)
  from assms Cons tm have p: "parent_conn s = Some Open" "channel s = (t, m) # rest"
    by (simp_all add: waiting_def)
  show ?thesis
    by (simp add: finish_def seq_def poll_message [OF p] p)
qed

lemma finish_poll:
  "poll (dec_timeout s) s = Some (Inr r, s2) \<Longrightarrow>
   finish s = (if r then value_prop s2 else cancel s2)"
  by (simp add: finish_def seq_def)

lemma poll_frame:
  assumes "poll b s = Some (r, s')"
  shows "process s' = process s \<and> parent_conn s' = parent_conn s \<and>
         child_conn s' = child_conn s \<and> channel s' = channel s \<and>
         timeout_exception s' = timeout_exception s \<and>
         exception_message s' = exception_message s \<and>
         unloadable s' = unloadable s \<and> sigterm_ignored s' = sigterm_ignored s \<and>
         now s \<le> now s'"
  using assms
  by (auto simp: poll_def ret_def throw_def logged_def
      split: option.splits handle.splits if_splits)


lemma finish_handles:
  assumes "waiting s" and "finish s = Some (r, s')"
  shows "child_conn s' = Some Open \<and>
         ((\<forall>x. r \<noteq> Inl (UnpicklingError x)) \<longrightarrow> parent_conn s' = Some Closed)"
proof -
  from assms(1) obtain p where p: "process s = Some p" "started p"
    and c: "parent_conn s = Some Open" "child_conn s = Some Open"
    by (auto simp: waiting_def split: option.splits)
  show ?thesis
  proof (cases "channel s")
    case Nil
    with assms obtain d where d: "dec_timeout s = Some d"
      by (cases "dec_timeout s") (simp_all add: finish_waiting)
    let ?s2 = "s\<lparr>now := now s + d, calls := calls s @ [CPoll (Some d)]\<rparr>"
    have "finish s = cancel ?s2"
      using assms(1) Nil d by (simp add: finish_waiting)
    with assms(2) p c show ?thesis
      by (auto simp: cancel_effect [where s = ?s2 and p = p and h = Open] split: if_splits)
  next
    case (Cons tm rest)
    obtain t m where tm: "tm = (t, m)" by (cases tm)
    from assms(1) Cons tm obtain b x where m: "m = Outcome b x"
      by (cases m) (simp_all add: waiting_def)
    let ?v = "s\<lparr>now := max (now s) t, calls := calls s @ [CPoll (dec_timeout s)]\<rparr>"
    let ?c = "s\<lparr>now := now s + the (dec_timeout s), calls := calls s @ [CPoll (dec_timeout s)]\<rparr>"
    have "finish s = value_prop ?v \<or> finish s = cancel ?c"
      using assms(1) Cons tm by (simp add: finish_waiting)
    then show ?thesis
    proof
      assume "finish s = value_prop ?v"
      with assms(2) p c Cons tm m show ?thesis
        by (auto simp: value_prop_outcome [where s = ?v and p = p and t = t and b = b and x = x
              and rest = rest] split: if_splits)
    next
      assume "finish s = cancel ?c"
      with assms(2) p c show ?thesis
        by (auto simp: cancel_effect [where s = ?c and p = p and h = Open] split: if_splits)
    qed
  qed
qed

lemma fst_finish_waiting:
  assumes "waiting s"
  shows "map_option fst (finish s) =
     (case channel s of
        [] \<Rightarrow>
          (case dec_timeout s of
             None \<Rightarrow> None
           | Some d \<Rightarrow> Some (Inl (TimeoutFailure (timeout_exception s) (exception_message s))))
      | (t, m) # rest \<Rightarrow>
          if (case dec_timeout s of None \<Rightarrow> True | Some d \<Rightarrow> t \<le> now s + d)
          then Some (received (unloadable s) m)
          else Some (Inl (TimeoutFailure (timeout_exception s) (exception_message s))))"
proof -
  from assms obtain p where p: "process s = Some p" "started p"
    and c: "parent_conn s = Some Open" "child_conn s = Some Open"
    by (auto simp: waiting_def split: option.splits)
  show ?thesis
  proof (cases "channel s")
    case Nil
    show ?thesis
    proof (cases "dec_timeout s")
      case None
      with assms Nil show ?thesis by (simp add: finish_waiting)
    next
      case (Some d)
      let ?s2 = "s\<lparr>now := now s + d, calls := calls s @ [CPoll (Some d)]\<rparr>"
      have "finish s = cancel ?s2"
        using assms Nil Some by (simp add: finish_waiting)
      with p c Nil Some show ?thesis
        by (simp add: cancel_effect [where s = ?s2 and p = p and h = Open])
    qed
  next
    case (Cons tm rest)
    obtain t m where tm: "tm = (t, m)" by (cases tm)
    from assms Cons tm obtain b x where m: "m = Outcome b x"
      by (cases m) (simp_all add: waiting_def)
    let ?v = "s\<lparr>now := max (now s) t, calls := calls s @ [CPoll (dec_timeout s)]\<rparr>"
    let ?c = "s\<lparr>now := now s + the (dec_timeout s), calls := calls s @ [CPoll (dec_timeout s)]\<rparr>"
    show ?thesis
    proof (cases "case dec_timeout s of None \<Rightarrow> True | Some d \<Rightarrow> t \<le> now s + d")
      case True
      then have "finish s = value_prop ?v"
        using assms Cons tm by (simp add: finish_waiting)
      with p c Cons tm m True show ?thesis
        by (simp add: value_prop_outcome [where s = ?v and p = p and t = t and b = b and x = x
              and rest = rest])
    next
      case False
      then have "finish s = cancel ?c"
        using assms Cons tm by (simp add: finish_waiting)
      with p c Cons tm False show ?thesis
        by (simp add: cancel_effect [where s = ?c and p = p and h = Open])
    qed
  qed
qed

lemma call_outcome:
  "map_option fst (call pf args s) =
     (case outcome_message pf (the_function s args) of
        None \<Rightarrow>
          (case dec_timeout s of
             None \<Rightarrow> None
           | Some t \<Rightarrow> Some (Inl (TimeoutFailure (timeout_exception s) (exception_message s))))
      | Some (d, m) \<Rightarrow>
          if (case dec_timeout s of
                None \<Rightarrow> True
              | Some t \<Rightarrow> (if dec_hard_timeout s then startup pf + d else d) \<le> t)
          then Some (received (\<lambda>p. transfer_of pf p = LoadFails) m)
          else Some (Inl (TimeoutFailure (timeout_exception s) (exception_message s))))"
proof -
  obtain s1 where l: "seq (spawn pf args) (\<lambda>u. await_start) s = Some (Inr (), s1)"
    by (simp add: launch_effect)
  from launch_waiting [OF l] have w: "waiting s1" by simp
  from l have f: "dec_timeout s1 = dec_timeout s" "timeout_exception s1 = timeout_exception s"
    "exception_message s1 = exception_message s"
    "now s1 = (if dec_hard_timeout s then now s else now s + startup pf)"
    "unloadable s1 = (\<lambda>p. transfer_of pf p = LoadFails)"
    "channel s1 =
       (case outcome_message pf (the_function s args) of
          None \<Rightarrow> []
        | Some (d, m) \<Rightarrow> [(now s + startup pf + d, m)])"
    by (auto simp: launch_effect)
  have "map_option fst (call pf args s) = map_option fst (finish s1)"
    using call_finish [OF l] by simp
  also note fst_finish_waiting [OF w]
  finally show ?thesis
    by (cases "outcome_message pf (the_function s args)"; cases "dec_timeout s";
        cases "dec_hard_timeout s")
       (auto simp: f)
qed

text \<open>What \<^verbatim>\<open>__call__\<close> does after the spawn, and the handles it starts from.\<close>

lemma call_after_spawn:
  "\<exists>s1 p. spawn pf args s = Some (Inr (), s1) \<and>
          call pf args s = seq await_start (\<lambda>u. finish) s1 \<and>
          parent_conn s1 = Some Open \<and> child_conn s1 = Some Open \<and>
          process s1 = Some p \<and> started p"
  by (simp add: call_def spawn_effect seq_Some_Inr [where m = "spawn pf args", OF spawn_effect])


lemma poll_answer_eq:
  "poll_answer pf args s =
     (case outcome_message pf (the_function s args) of
        None \<Rightarrow> (case dec_timeout s of None \<Rightarrow> None | Some b \<Rightarrow> Some (Inr False))
      | Some (d, m) \<Rightarrow>
          Some (Inr (case dec_timeout s of
                       None \<Rightarrow> True
                     | Some b \<Rightarrow> (if dec_hard_timeout s then startup pf + d else d) \<le> b)))"
  (is "_ = ?rhs")
proof -
  obtain s1 where l: "seq (spawn pf args) (\<lambda>u. await_start) s = Some (Inr (), s1)"
    by (simp add: launch_effect)
  from launch_waiting [OF l] have w: "waiting s1" by simp
  then have c: "parent_conn s1 = Some Open" "child_conn s1 = Some Open"
    by (simp_all add: waiting_def)
  from l have f: "dec_timeout s1 = dec_timeout s"
    "now s1 = (if dec_hard_timeout s then now s else now s + startup pf)"
    "channel s1 =
       (case outcome_message pf (the_function s args) of
          None \<Rightarrow> []
        | Some (d, m) \<Rightarrow> [(now s + startup pf + d, m)])"
    by (auto simp: launch_effect)
  have "poll_answer pf args s = map_option fst (poll (dec_timeout s) s1)"
    unfolding poll_answer_def by (subst seq_def) (simp add: l f)
  also have "\<dots> = ?rhs"
  proof (cases "outcome_message pf (the_function s args)")
    case None
    with f c show ?thesis
      by (cases "dec_timeout s") (simp_all add: poll_blocks poll_expires)
  next
    case (Some dm)
    obtain d m where "dm = (d, m)" by (cases dm)
    with Some f c show ?thesis
      by (cases "dec_timeout s"; cases "dec_hard_timeout s")
         (simp_all add: poll_message [where t = "now s + startup pf + d" and m = m and rest = "[]"])
  qed
  finally show ?thesis .
qed

lemma received_not_timeout: "received u m \<noteq> Inl (TimeoutFailure k e)"
  by (cases m) simp_all

section \<open>Examples\<close>

lemmas example_defs = example_timeout_def init_def example_platform_def stubborn_platform_def
  sleep_then_return_def sleep_then_raise_def example_pickling_def example_error_pickling_def
  picklable_def

lemma example_launch_soft:
  "\<exists>s1 s2. seq (spawn example_platform (3, 42)) (\<lambda>u. await_start)
              (example_timeout sleep_then_return (Some 5) False) = Some (Inr (), s1) \<and>
           poll (dec_timeout s1) s1 = Some (Inr True, s2) \<and>
           channel s2 = [(5, Outcome False (Obj 42))]"
  by (simp add: launch_effect example_defs poll_def readable_at_def ret_def logged_def)

lemma example_launch_late_poll:
  "\<exists>s1 s2. seq (spawn stubborn_platform (6, 42)) (\<lambda>u. await_start)
              (example_timeout sleep_then_return (Some 5) False) = Some (Inr (), s1) \<and>
           poll (dec_timeout s1) s1 = Some (Inr False, s2) \<and>
           process s2 = Some \<lparr>daemon = True, started = True, ends = Some 8, killed = None\<rparr> \<and>
           parent_conn s2 = Some Open \<and> now s2 = 7 \<and> sigterm_ignored s2 \<and>
           channel s2 = [(8, Outcome False (Obj 42))] \<and>
           timeout_exception s2 = ''TimeoutError'' \<and> exception_message s2 = ''too slow''"
  by (simp add: launch_effect example_defs poll_def readable_at_def ret_def logged_def
      child_run_def target_fresh)

lemma example_launch_late:
  "\<exists>s1 s2 s3. seq (spawn stubborn_platform (6, 42)) (\<lambda>u. await_start)
              (example_timeout sleep_then_return (Some 5) False) = Some (Inr (), s1) \<and>
           poll (dec_timeout s1) s1 = Some (Inr False, s2) \<and>
           finish s1 = Some (Inl (TimeoutFailure ''TimeoutError'' ''too slow''), s3) \<and>
           now s3 = 8 \<and> channel s3 = [(8, Outcome False (Obj 42))]"
proof -
  obtain s1 s2 where
    h: "seq (spawn stubborn_platform (6, 42)) (\<lambda>u. await_start)
          (example_timeout sleep_then_return (Some 5) False) = Some (Inr (), s1)"
       "poll (dec_timeout s1) s1 = Some (Inr False, s2)"
    and p: "process s2 = Some \<lparr>daemon = True, started = True, ends = Some 8, killed = None\<rparr>"
       "started \<lparr>daemon = True, started = True, ends = Some 8, killed = None\<rparr>"
       "parent_conn s2 = Some Open"
    and f: "now s2 = 7" "sigterm_ignored s2" "channel s2 = [(8, Outcome False (Obj 42))]"
       "timeout_exception s2 = ''TimeoutError''" "exception_message s2 = ''too slow''"
    using example_launch_late_poll by auto
  have "finish s1 = cancel s2"
    using finish_poll [OF h(2)] by simp
  with f have "\<exists>s3. finish s1 = Some (Inl (TimeoutFailure ''TimeoutError'' ''too slow''), s3) \<and>
      now s3 = 8 \<and> channel s3 = [(8, Outcome False (Obj 42))]"
    by (simp add: cancel_effect [OF p] join_returns_def over_at_def)
  with h show ?thesis by blast
qed

lemma example_call_returns:
  "\<exists>r s'. call example_platform (3, 42) (example_timeout sleep_then_return (Some 5) False) =
            Some (r, s')"
proof -
  have "map_option fst (call example_platform (3, 42)
          (example_timeout sleep_then_return (Some 5) False)) = Some (Inr (Obj 42))"
    by (simp add: call_outcome example_defs)
  then show ?thesis by auto
qed

section \<open>The outcome message arrives in time\<close>

text \<open>
  Claim C1 says that a message that arrives in time is always returned or re-raised. It
  fails for a payload the parent cannot rebuild: the failure 500 of the function is
  serialised and written within the budget, the poll answers true, and the receive
  raises its own error, which is what \<^verbatim>\<open>__call__\<close> then raises.
\<close>

theorem undeserialisable_outcome_counterexample:
  "poll_answer example_platform (1, 500) (example_timeout sleep_then_raise (Some 5) False) =
     Some (Inr True) \<and>
   written (snd (child_run example_platform (example_timeout sleep_then_raise (Some 5) False)
                   (1, 500))) =
     [(2, Started), (3, Outcome True (Obj 500))] \<and>
   map_option fst (call example_platform (1, 500) (example_timeout sleep_then_raise (Some 5) False)) =
     Some (Inl (UnpicklingError (Obj 500)))"
  by (simp add: poll_answer_eq child_run_written call_outcome example_defs)

text \<open>
  Claim C1, amended. Whenever \<^verbatim>\<open>__call__\<close> has spawned the child (and, in soft mode,
  consumed the start signal) and its poll answers true, the message at the head of the
  pipe is an outcome message \<open>(b, x)\<close>. If the parent can rebuild \<open>x\<close>, \<^verbatim>\<open>__call__\<close> returns
  \<open>x\<close> when \<open>b\<close> is false and raises \<open>x\<close> itself, not the configured timeout failure, when
  \<open>b\<close> is true; if it cannot, \<^verbatim>\<open>__call__\<close> raises the error of the receive.
\<close>

theorem call_poll_true:
  assumes "seq (spawn pf args) (\<lambda>u. await_start) s = Some (Inr (), s1)"
    and "poll (dec_timeout s1) s1 = Some (Inr True, s2)"
  shows "\<exists>t b x rest. channel s2 = (t, Outcome b x) # rest \<and>
           map_option fst (call pf args s) =
             Some (if transfer_of pf x = LoadFails then Inl (UnpicklingError x)
                   else if b then Inl (Raised x) else Inr x)"
proof -
  from launch_waiting [OF assms(1)]
  have w: "waiting s1" and u: "unloadable s1 = (\<lambda>p. transfer_of pf p = LoadFails)"
    by simp_all
  show ?thesis
  proof (cases "channel s1")
    case Nil
    with w assms(2) show ?thesis
      by (cases "dec_timeout s1") (simp_all add: waiting_def poll_blocks poll_expires)
  next
    case (Cons tm rest)
    obtain t m where tm: "tm = (t, m)" by (cases tm)
    from w Cons tm obtain b x where m: "m = Outcome b x"
      by (cases m) (simp_all add: waiting_def)
    from w obtain p where p: "process s1 = Some p" "started p"
      by (auto simp: waiting_def split: option.splits)
    from w Cons tm have c: "parent_conn s1 = Some Open" "channel s1 = (t, m) # rest"
      by (simp_all add: waiting_def)
    from assms(2) have s2: "s2 = s1\<lparr>now := max (now s1) t, calls := calls s1 @ [CPoll (dec_timeout s1)]\<rparr>"
      and within: "(case dec_timeout s1 of None \<Rightarrow> True | Some d \<Rightarrow> t \<le> now s1 + d)"
      by (simp_all add: poll_message [OF c] split: if_splits)
    have "finish s1 = value_prop s2"
      using w within Cons tm by (simp add: finish_waiting s2)
    moreover have "map_option fst (value_prop s2) =
        Some (if transfer_of pf x = LoadFails then Inl (UnpicklingError x)
              else if b then Inl (Raised x) else Inr x)"
      by (simp add: value_prop_outcome [where t = t and b = b and x = x and rest = rest and p = p]
          s2 c p m u)
    ultimately show ?thesis
      using call_finish [OF assms(1)] c m by (simp add: s2)
  qed
qed

theorem call_poll_true_witness:
  "\<exists>s1 s2. seq (spawn example_platform (3, 42)) (\<lambda>u. await_start)
              (example_timeout sleep_then_return (Some 5) False) = Some (Inr (), s1) \<and>
           poll (dec_timeout s1) s1 = Some (Inr True, s2) \<and>
           map_option fst (call example_platform (3, 42)
             (example_timeout sleep_then_return (Some 5) False)) = Some (Inr (Obj 42))"
proof -
  obtain s1 s2 where
    h: "seq (spawn example_platform (3, 42)) (\<lambda>u. await_start)
          (example_timeout sleep_then_return (Some 5) False) = Some (Inr (), s1)"
       "poll (dec_timeout s1) s1 = Some (Inr True, s2)"
    and c: "channel s2 = [(5, Outcome False (Obj 42))]"
    using example_launch_soft by blast
  from call_poll_true [OF h] c
  have "map_option fst (call example_platform (3, 42)
          (example_timeout sleep_then_return (Some 5) False)) = Some (Inr (Obj 42))"
    by (auto simp: example_defs)
  with h show ?thesis by blast
qed

section \<open>No budget, and a budget of zero\<close>

text \<open>
  Claim C2 says that an absent and a zero budget both switch the timeout off. For zero
  it fails: \<^verbatim>\<open>poll(0)\<close> answers at once, so a function that sleeps three time-units
  under a budget of zero ends in the timeout failure.
\<close>

theorem zero_budget_counterexample:
  "map_option fst (call example_platform (3, 42) (example_timeout sleep_then_return (Some 0) False))
     = Some (Inl (TimeoutFailure ''TimeoutError'' ''too slow''))"
  by (simp add: call_outcome example_defs)

text \<open>
  Claim C2, amended. With no budget (\<^verbatim>\<open>dec_timeout\<close> is \<^verbatim>\<open>None\<close>) the timeout failure is
  never raised; a function that returns a serialisable value after any finite time has
  that value returned by \<^verbatim>\<open>__call__\<close>; and while no message comes \<^verbatim>\<open>__call__\<close> waits
  forever.
\<close>

theorem no_budget_no_timeout:
  assumes "dec_timeout s = None"
  shows "(\<forall>r s' k m. call pf args s = Some (r, s') \<longrightarrow> r \<noteq> Inl (TimeoutFailure k m)) \<and>
         (\<forall>d v. the_function s args = Returns d v \<and> picklable pf v \<longrightarrow>
            map_option fst (call pf args s) = Some (Inr (Obj v))) \<and>
         (the_function s args = Diverges \<longrightarrow> call pf args s = None)"
proof -
  have "r \<noteq> Inl (TimeoutFailure k m)" if "call pf args s = Some (r, s')" for r s' k m
  proof -
    from that have "map_option fst (call pf args s) = Some r" by simp
    with assms show ?thesis
      by (auto simp: call_outcome received_not_timeout split: option.splits if_splits)
  qed
  moreover have "map_option fst (call pf args s) = Some (Inr (Obj v))"
    if "the_function s args = Returns d v \<and> picklable pf v" for d v
    using that assms by (simp add: call_outcome picklable_def)
  moreover have "call pf args s = None" if "the_function s args = Diverges"
  proof -
    from that assms have "map_option fst (call pf args s) = None"
      by (simp add: call_outcome)
    then show ?thesis by simp
  qed
  ultimately show ?thesis by blast
qed

theorem no_budget_no_timeout_witness:
  "dec_timeout (example_timeout sleep_then_return None False) = None \<and>
   sleep_then_return (300, 42) = Returns 300 42 \<and> picklable example_platform 42 \<and>
   map_option fst (call example_platform (300, 42) (example_timeout sleep_then_return None False))
     = Some (Inr (Obj 42))"
proof -
  have h: "dec_timeout (example_timeout sleep_then_return None False) = None"
    by (simp add: example_defs)
  have g: "the_function (example_timeout sleep_then_return None False) (300, 42) = Returns 300 42 \<and>
           picklable example_platform 42"
    by (simp add: example_defs)
  from no_budget_no_timeout [OF h, of example_platform "(300, 42)"] g
  have "map_option fst (call example_platform (300, 42) (example_timeout sleep_then_return None False))
          = Some (Inr (Obj 42))"
    by blast
  with h g show ?thesis by (simp add: example_defs)
qed

section \<open>The budget elapses\<close>

text \<open>
  Claim C3. Whenever the poll of \<^verbatim>\<open>__call__\<close> answers false, \<^verbatim>\<open>__call__\<close> raises the
  configured timeout failure with the configured message, after exactly these calls: the
  liveness query, \<^verbatim>\<open>terminate\<close> if and only if the child was alive, a join bounded by
  one time-unit, and the close of the read end. The child is dead afterwards only if it
  was alive and does not ignore the signal. \<^verbatim>\<open>__call__\<close> returns at most one time-unit
  after the poll. No receive is among the calls: every message the child has written by
  then is still in the pipe.
\<close>

theorem call_poll_false:
  assumes "seq (spawn pf args) (\<lambda>u. await_start) s = Some (Inr (), s1)"
    and "poll (dec_timeout s1) s1 = Some (Inr False, s2)"
  shows "\<exists>p s3. process s2 = Some p \<and>
           call pf args s =
             Some (Inl (TimeoutFailure (timeout_exception s) (exception_message s)), s3) \<and>
           calls s3 = calls s2 @ [CIsAlive] @ (if alive p (now s2) then [CTerminate] else []) @
                        [CJoin 1, CClose] \<and>
           process s3 = Some (if alive p (now s2) \<and> \<not> ignores_sigterm pf
                              then p\<lparr>killed := Some (now s2)\<rparr> else p) \<and>
           now s2 \<le> now s3 \<and> now s3 \<le> now s2 + 1 \<and>
           parent_conn s3 = Some Closed \<and>
           filter (\<lambda>(t, m). t \<le> now s3) (channel s3) =
           filter (\<lambda>(t, m). t \<le> now s3) (channel s2)"
proof -
  from launch_waiting [OF assms(1)]
  have w: "waiting s1" and k: "timeout_exception s1 = timeout_exception s"
    "exception_message s1 = exception_message s"
    by simp_all
  from assms(1) have i1: "sigterm_ignored s1 = ignores_sigterm pf"
    by (auto simp: launch_effect)
  from w obtain p where p1: "process s1 = Some p" "started p" "parent_conn s1 = Some Open"
    by (auto simp: waiting_def split: option.splits)
  from poll_frame [OF assms(2)] p1 k i1
  have p2: "process s2 = Some p" "parent_conn s2 = Some Open"
    and k2: "timeout_exception s2 = timeout_exception s" "exception_message s2 = exception_message s"
    and i2: "sigterm_ignored s2 = ignores_sigterm pf"
    by simp_all
  have c: "call pf args s = cancel s2"
    using call_finish [OF assms(1)] finish_poll [OF assms(2)] by simp
  show ?thesis
  proof (cases "alive p (now s2) \<and> \<not> ignores_sigterm pf")
    case True
    have "filter (\<lambda>(t, m). t \<le> now s2) (filter (\<lambda>(t, m). t \<le> now s2) (channel s2)) =
          filter (\<lambda>(t, m). t \<le> now s2) (channel s2)"
      by simp
    with True c p2 k2 i2 show ?thesis
      by (simp add: cancel_effect [OF p2(1) p1(2) p2(2)])
  next
    case False
    with c p2 k2 i2 join_returns_bounds [of "now s2" p 1] show ?thesis
      by (auto simp: cancel_effect [OF p2(1) p1(2) p2(2)])
  qed
qed

text \<open>
  On the stubborn platform the function sleeps six time-units under a budget of five: the
  child survives the signal and writes its outcome at time 8, during the join; the
  message is in the pipe when \<^verbatim>\<open>__call__\<close> raises, and was never received.
\<close>

theorem call_poll_false_witness:
  "\<exists>s1 s2 s3. seq (spawn stubborn_platform (6, 42)) (\<lambda>u. await_start)
              (example_timeout sleep_then_return (Some 5) False) = Some (Inr (), s1) \<and>
           poll (dec_timeout s1) s1 = Some (Inr False, s2) \<and>
           call stubborn_platform (6, 42) (example_timeout sleep_then_return (Some 5) False) =
             Some (Inl (TimeoutFailure ''TimeoutError'' ''too slow''), s3) \<and>
           parent_conn s3 = Some Closed \<and> now s3 = 8 \<and>
           channel s3 = [(8, Outcome False (Obj 42))]"
proof -
  obtain s1 s2 s3 where
    h: "seq (spawn stubborn_platform (6, 42)) (\<lambda>u. await_start)
          (example_timeout sleep_then_return (Some 5) False) = Some (Inr (), s1)"
       "poll (dec_timeout s1) s1 = Some (Inr False, s2)"
    and c: "finish s1 = Some (Inl (TimeoutFailure ''TimeoutError'' ''too slow''), s3)"
       "now s3 = 8" "channel s3 = [(8, Outcome False (Obj 42))]"
    using example_launch_late by blast
  have e: "call stubborn_platform (6, 42) (example_timeout sleep_then_return (Some 5) False) =
             Some (Inl (TimeoutFailure ''TimeoutError'' ''too slow''), s3)"
    using call_finish [OF h(1)] c(1) by simp
  from call_poll_false [OF h] obtain s3' where
    t: "call stubborn_platform (6, 42) (example_timeout sleep_then_return (Some 5) False) =
          Some (Inl (TimeoutFailure
                  (timeout_exception (example_timeout sleep_then_return (Some 5) False))
                  (exception_message (example_timeout sleep_then_return (Some 5) False))), s3')"
       "parent_conn s3' = Some Closed"
    by blast
  from t(1) have "s3' = s3" unfolding e by simp
  with t(2) have "parent_conn s3 = Some Closed" by simp
  with h e c show ?thesis by blast
qed

section \<open>The child captures the failure of the function\<close>




section \<open>The start signal\<close>

text \<open>
  Claim C5. Take any invocation that reaches its poll, in the state \<open>s1\<close>. What
  \<^verbatim>\<open>_target\<close> has written is the start signal first in soft mode and no start signal in
  hard mode, followed by what the pipe holds at \<open>s1\<close>, which contains no start signal.
  \<^verbatim>\<open>__call__\<close> reached \<open>s1\<close> by the calls pipe, process, daemon flag, start and, in soft
  mode only, one receive; the clock stands at the time the child began to execute in
  soft mode, and at the time of the spawn in hard mode. The rest of \<^verbatim>\<open>__call__\<close> is the
  poll with the budget, run at \<open>s1\<close>, and what it is followed by. That poll answers true
  exactly when the child writes an outcome message and the running time of the function,
  plus the startup time in hard mode only, is within the budget; that message is what
  the pipe holds at \<open>s1\<close>, written at the start of the child plus the running time. So in
  soft mode the result of \<^verbatim>\<open>__call__\<close> does not depend on the startup time of the child.
\<close>

theorem start_signal_protocol:
  assumes "seq (spawn pf args) (\<lambda>u. await_start) s = Some (Inr (), s1)"
  shows "written (snd (child_run pf s args)) =
           (if dec_hard_timeout s then [] else [(now s + startup pf, Started)]) @ channel s1 \<and>
         Started \<notin> snd ` set (channel s1) \<and>
         calls s1 = calls s @
           [CPipe, CProcess,
            CDaemon (\<not> (version_lt (version_info pf) (3, 0) \<and> system_windows pf \<and>
                         \<not> in_main_thread pf)),
            CStart] @ (if dec_hard_timeout s then [] else [CRecv]) \<and>
         now s1 = (if dec_hard_timeout s then now s else now s + startup pf) \<and>
         call pf args s =
           seq (poll (dec_timeout s)) (\<lambda>ready. if ready then value_prop else cancel) s1 \<and>
         poll_answer pf args s = map_option fst (poll (dec_timeout s) s1) \<and>
         poll_answer pf args s =
           (case outcome_message pf (the_function s args) of
              None \<Rightarrow> (case dec_timeout s of None \<Rightarrow> None | Some b \<Rightarrow> Some (Inr False))
            | Some (d, m) \<Rightarrow>
                Some (Inr (case dec_timeout s of
                             None \<Rightarrow> True
                           | Some b \<Rightarrow> (if dec_hard_timeout s then startup pf + d else d) \<le> b))) \<and>
         channel s1 =
           (case outcome_message pf (the_function s args) of
              None \<Rightarrow> []
            | Some (d, m) \<Rightarrow> [(now s + startup pf + d, m)]) \<and>
         map_option fst (call (pf\<lparr>startup := a\<rparr>) args (s\<lparr>dec_hard_timeout := False\<rparr>)) =
         map_option fst (call (pf\<lparr>startup := b\<rparr>) args (s\<lparr>dec_hard_timeout := False\<rparr>))"
proof -
  from assms have f: "dec_timeout s1 = dec_timeout s"
    "now s1 = (if dec_hard_timeout s then now s else now s + startup pf)"
    "channel s1 =
       (case outcome_message pf (the_function s args) of
          None \<Rightarrow> []
        | Some (d, m) \<Rightarrow> [(now s + startup pf + d, m)])"
    "calls s1 = calls s @
           [CPipe, CProcess,
            CDaemon (\<not> (version_lt (version_info pf) (3, 0) \<and> system_windows pf \<and>
                         \<not> in_main_thread pf)),
            CStart] @ (if dec_hard_timeout s then [] else [CRecv])"
    by (auto simp: launch_effect)
  have w: "written (snd (child_run pf s args)) =
           (if dec_hard_timeout s then [] else [(now s + startup pf, Started)]) @ channel s1"
    by (simp add: child_run_written f(3))
  have n: "Started \<notin> snd ` set (channel s1)"
    by (auto simp: f(3) split: option.splits dest: outcome_message_not_Started [OF sym])
  have c: "call pf args s =
           seq (poll (dec_timeout s)) (\<lambda>ready. if ready then value_prop else cancel) s1"
    using call_finish [OF assms] by (simp add: finish_def seq_def f(1))
  have p: "poll_answer pf args s = map_option fst (poll (dec_timeout s) s1)"
    unfolding poll_answer_def by (subst seq_def) (simp add: assms f(1))
  have i: "map_option fst (call (pf\<lparr>startup := a\<rparr>) args (s\<lparr>dec_hard_timeout := False\<rparr>)) =
        map_option fst (call (pf\<lparr>startup := b\<rparr>) args (s\<lparr>dec_hard_timeout := False\<rparr>))"
    by (cases "the_function s args"; cases "dec_timeout s") (simp_all add: call_outcome)
  from w n f(4) f(2) c p poll_answer_eq [of pf args s] f(3) i show ?thesis
    by (simp only: simp_thms)
qed

theorem start_signal_protocol_witness:
  "\<exists>s1. seq (spawn example_platform (3, 42)) (\<lambda>u. await_start)
            (example_timeout sleep_then_return (Some 5) False) = Some (Inr (), s1) \<and>
        written (snd (child_run example_platform (example_timeout sleep_then_return (Some 5) False)
                        (3, 42))) = (2, Started) # channel s1 \<and>
        calls s1 = [CPipe, CProcess, CDaemon True, CStart, CRecv] \<and>
        now s1 = 2 \<and>
        poll_answer example_platform (3, 42) (example_timeout sleep_then_return (Some 5) False) =
          Some (Inr True)"
proof -
  obtain s1 where
    h: "seq (spawn example_platform (3, 42)) (\<lambda>u. await_start)
          (example_timeout sleep_then_return (Some 5) False) = Some (Inr (), s1)"
    by (simp add: launch_effect)
  note t = start_signal_protocol [OF h, of 0 0]
  have "written (snd (child_run example_platform (example_timeout sleep_then_return (Some 5) False)
                        (3, 42))) = (2, Started) # channel s1"
    using t [THEN conjunct1] by (simp add: example_defs)
  moreover have "calls s1 = [CPipe, CProcess, CDaemon True, CStart, CRecv]"
    using t [THEN conjunct2, THEN conjunct2, THEN conjunct1] by (simp add: example_defs)
  moreover have "now s1 = 2"
    using t [THEN conjunct2, THEN conjunct2, THEN conjunct2, THEN conjunct1]
    by (simp add: example_defs)
  moreover have "poll_answer example_platform (3, 42)
        (example_timeout sleep_then_return (Some 5) False) = Some (Inr True)"
    using t [THEN conjunct2, THEN conjunct2, THEN conjunct2, THEN conjunct2, THEN conjunct2,
             THEN conjunct2, THEN conjunct1]
    by (simp add: example_defs)
  ultimately
  have "written (snd (child_run example_platform (example_timeout sleep_then_return (Some 5) False)
                        (3, 42))) = (2, Started) # channel s1 \<and>
        calls s1 = [CPipe, CProcess, CDaemon True, CStart, CRecv] \<and>
        now s1 = 2 \<and>
        poll_answer example_platform (3, 42) (example_timeout sleep_then_return (Some 5) False) =
          Some (Inr True)"
    by blast
  with h show ?thesis by blast
qed

section \<open>The handles at the end of an invocation\<close>

text \<open>
  Claim C6 says that \<^verbatim>\<open>__call__\<close> closes both ends of the pipe. It fails for the
  parent's handle to the write end: after an invocation that returned its value, that
  handle is still open.
\<close>

theorem write_handle_left_open_counterexample:
  "map_option (child_conn \<circ> snd)
     (call example_platform (3, 42) (example_timeout sleep_then_return (Some 5) False)) =
   Some (Some Open)"
proof -
  obtain r s' where
    c: "call example_platform (3, 42) (example_timeout sleep_then_return (Some 5) False) =
          Some (r, s')"
    using example_call_returns by blast
  obtain s1 where l: "seq (spawn example_platform (3, 42)) (\<lambda>u. await_start)
      (example_timeout sleep_then_return (Some 5) False) = Some (Inr (), s1)"
    by (simp add: launch_effect)
  from launch_waiting [OF l] have "waiting s1" by simp
  moreover from call_finish [OF l] c have "finish s1 = Some (r, s')" by simp
  ultimately have "child_conn s' = Some Open" by (simp add: finish_handles)
  with c show ?thesis by simp
qed

text \<open>
  Claim C6, amended. However \<^verbatim>\<open>__call__\<close> ends, its own handle to the write end is still
  open. And it has closed the read end whenever it ends with the value, with the failure
  of the function or with the timeout failure, that is, in any way but by the error of
  a receive.
\<close>

theorem call_handles_at_exit:
  assumes "call pf args s = Some (r, s')"
  shows "child_conn s' = Some Open \<and>
         ((\<forall>x. r \<noteq> Inl (UnpicklingError x)) \<longrightarrow> parent_conn s' = Some Closed)"
proof -
  obtain s1 where l: "seq (spawn pf args) (\<lambda>u. await_start) s = Some (Inr (), s1)"
    by (simp add: launch_effect)
  from launch_waiting [OF l] have "waiting s1" by simp
  moreover from call_finish [OF l] assms have "finish s1 = Some (r, s')" by simp
  ultimately show ?thesis by (rule finish_handles)
qed

theorem call_handles_at_exit_witness:
  "\<exists>s'. call example_platform (3, 42) (example_timeout sleep_then_return (Some 5) False) =
            Some (Inr (Obj 42), s') \<and>
        (\<forall>x. (Inr (Obj 42) :: (string, nat) failure + nat obj) \<noteq> Inl (UnpicklingError x)) \<and>
        parent_conn s' = Some Closed \<and> child_conn s' = Some Open"
proof -
  obtain r s' where
    c: "call example_platform (3, 42) (example_timeout sleep_then_return (Some 5) False) =
          Some (r, s')"
    using example_call_returns by blast
  then have "map_option fst (call example_platform (3, 42)
      (example_timeout sleep_then_return (Some 5) False)) = Some r"
    by simp
  then have r: "r = Inr (Obj 42)"
    by (simp add: call_outcome example_defs)
  from call_handles_at_exit [OF c] r
  have "parent_conn s' = Some Closed \<and> child_conn s' = Some Open" by simp
  with c r show ?thesis by simp
qed

text \<open>
  The path the amended claim leaves out: where the receive inside \<^verbatim>\<open>value\<close> raises, the
  join and the close are not reached.
\<close>

lemma receive_failure_skips_close:
  "\<exists>s'. call example_platform (1, 500) (example_timeout sleep_then_raise (Some 5) False) =
          Some (Inl (UnpicklingError (Obj 500)), s') \<and>
        parent_conn s' = Some Open \<and> CJoin 1 \<notin> set (calls s') \<and> CClose \<notin> set (calls s')"
proof -
  obtain s1 where
    l: "seq (spawn example_platform (1, 500)) (\<lambda>u. await_start)
          (example_timeout sleep_then_raise (Some 5) False) = Some (Inr (), s1)"
    and f: "parent_conn s1 = Some Open" "channel s1 = [(3, Outcome True (Obj 500))]"
      "process s1 = Some \<lparr>daemon = True, started = True, ends = Some 3, killed = None\<rparr>"
      "now s1 = 2" "dec_timeout s1 = Some 5" "unloadable s1 (Obj 500)"
      "calls s1 = [CPipe, CProcess, CDaemon True, CStart, CRecv]"
    by (simp add: launch_effect example_defs child_run_def target_fresh)
  from launch_waiting [OF l] have w: "waiting s1" by simp
  let ?v = "s1\<lparr>now := max (now s1) 3, calls := calls s1 @ [CPoll (dec_timeout s1)]\<rparr>"
  have e: "finish s1 = value_prop ?v"
    using f by (simp add: finish_waiting [OF w])
  have a: "parent_conn ?v = Some Open" "channel ?v = (3, Outcome True (Obj 500)) # []"
    "process ?v = Some \<lparr>daemon = True, started = True, ends = Some 3, killed = None\<rparr>"
    "started \<lparr>daemon = True, started = True, ends = Some 3, killed = None\<rparr>"
    using f by simp_all
  from trans [OF e value_prop_outcome [OF a]] f
  have "\<exists>s'. finish s1 = Some (Inl (UnpicklingError (Obj 500)), s') \<and>
        parent_conn s' = Some Open \<and> CJoin 1 \<notin> set (calls s') \<and> CClose \<notin> set (calls s')"
    by simp
  with call_finish [OF l] show ?thesis by simp
qed

section \<open>A child that closes the pipe without a message\<close>

text \<open>
  Claim C7 says that \<^verbatim>\<open>__call__\<close> then fails with the channel-closed condition. It does
  not: in hard mode a function whose failure cannot be serialised makes the child close
  its handle with nothing written, and \<^verbatim>\<open>__call__\<close> raises the timeout failure.
\<close>

theorem silent_child_times_out_counterexample:
  "written (snd (child_run example_platform (example_timeout sleep_then_raise (Some 5) True) (1, 900)))
     = [] \<and>
   closed (snd (child_run example_platform (example_timeout sleep_then_raise (Some 5) True) (1, 900)))
     = Some 3 \<and>
   map_option fst (call example_platform (1, 900) (example_timeout sleep_then_raise (Some 5) True))
     = Some (Inl (TimeoutFailure ''TimeoutError'' ''too slow''))"
  by (simp add: call_outcome child_run_def target_fresh example_defs)

text \<open>
  Claim C7, amended. Take any state after the spawn in which the child writes nothing
  and has closed its handle. The rest of \<^verbatim>\<open>__call__\<close> (lines 46 to 51) meets no end of
  stream, since the parent's own handle to the write end is open, as it is after every
  spawn: in hard mode with a budget it raises the configured timeout failure, and in
  soft mode or without a budget it never returns.
\<close>

theorem closed_without_message:
  assumes "parent_conn s = Some Open" and "child_conn s = Some Open"
    and "process s = Some p" and "started p"
    and "channel s = []" and "writer_closed s = Some tc"
  shows "map_option fst (seq await_start (\<lambda>u. finish) s) =
           (if dec_hard_timeout s \<and> dec_timeout s \<noteq> None
            then Some (Inl (TimeoutFailure (timeout_exception s) (exception_message s)))
            else None)"
proof (cases "dec_hard_timeout s")
  case False
  with assms show ?thesis
    by (simp add: seq_def await_start_def wait_until_process_started_def recv_blocks)
next
  case True
  from assms have w: "waiting s" by (simp add: waiting_def)
  from True have "seq await_start (\<lambda>u. finish) s = finish s"
    by (simp add: seq_def await_start_def ret_def)
  with assms True show ?thesis
    by (simp add: fst_finish_waiting [OF w] split: option.splits)
qed

theorem closed_without_message_witness:
  "parent_conn silent_child = Some Open \<and> child_conn silent_child = Some Open \<and>
   process silent_child = Some \<lparr>daemon = True, started = True, ends = Some 3, killed = None\<rparr> \<and>
   channel silent_child = [] \<and> writer_closed silent_child = Some 3 \<and>
   map_option fst (seq await_start (\<lambda>u. finish) silent_child) =
     Some (Inl (TimeoutFailure ''TimeoutError'' ''too slow''))"
proof -
  have h: "parent_conn silent_child = Some Open" "child_conn silent_child = Some Open"
    "process silent_child = Some \<lparr>daemon = True, started = True, ends = Some 3, killed = None\<rparr>"
    "started \<lparr>daemon = True, started = True, ends = Some 3, killed = None\<rparr>"
    "channel silent_child = []" "writer_closed silent_child = Some 3"
    by (simp_all add: silent_child_def example_defs)
  from closed_without_message [OF h] h show ?thesis
    by (simp add: silent_child_def example_defs)
qed

section \<open>The daemon flag\<close>

text \<open>
  Claim C8. The process that \<^verbatim>\<open>__call__\<close> starts has its daemon flag set, unless the
  version is below 3.0, the system is Windows and the call is not in the main thread:
  then, and only then, the flag is false. The flag is assigned before the start.
\<close>

theorem daemon_flag_at_spawn:
  "\<exists>s1 p. spawn pf args s = Some (Inr (), s1) \<and> process s1 = Some p \<and>
      daemon p = (\<not> (version_lt (version_info pf) (3, 0) \<and> system_windows pf \<and>
                       \<not> in_main_thread pf)) \<and>
      calls s1 = calls s @ [CPipe, CProcess, CDaemon (daemon p), CStart]"
  by (simp add: spawn_effect)

section \<open>A failing send of the success message\<close>

text \<open>
  Claim C9 says that after a failed send of the success message the handler sends the
  error of that send. It fails when that error cannot be serialised either: the
  handler's send raises too, no outcome message is written, and the exception leaves
  \<^verbatim>\<open>_target\<close>.
\<close>

theorem double_send_failure_counterexample:
  "sleep_then_return (1, 950) = Returns 1 950 \<and>
   try_block example_platform \<lparr>clock = 2, written = [], closed = None\<rparr> False
     sleep_then_return (1, 950) =
       (Exc (PicklingError 950), \<lparr>clock = 3, written = [(2, Started)], closed = None\<rparr>) \<and>
   target example_platform \<lparr>clock = 2, written = [], closed = None\<rparr> False
     sleep_then_return (1, 950) =
       (Uncaught (PicklingError 950), \<lparr>clock = 3, written = [(2, Started)], closed = Some 3\<rparr>)"
  by (simp add: target_fresh try_block_def send_def example_defs)

text \<open>
  Claim C9, amended. If the function returns a value whose send fails, that send raises
  inside the \<^verbatim>\<open>try\<close> block with nothing written, and the handler is entered with the
  error of that send. If that error can be serialised, the handler sends \<open>(True, error)\<close>
  as the outcome message and \<^verbatim>\<open>_target\<close> returns normally. Either way \<^verbatim>\<open>_target\<close> has
  closed its handle to the write end.
\<close>

theorem send_failure_falls_back:
  assumes "f args = Returns d v" and "pickling pf v = DumpFails"
  shows "try_block pf \<lparr>clock = t0, written = [], closed = None\<rparr> hard f args =
           (Exc (PicklingError v),
            \<lparr>clock = t0 + d, written = (if hard then [] else [(t0, Started)]), closed = None\<rparr>) \<and>
         (error_pickling pf v \<noteq> DumpFails \<longrightarrow>
            target pf \<lparr>clock = t0, written = [], closed = None\<rparr> hard f args =
              (Exited,
               \<lparr>clock = t0 + d,
                written = (if hard then [] else [(t0, Started)]) @
                  [(t0 + d, Outcome True (PicklingError v))],
                closed = Some (t0 + d)\<rparr>)) \<and>
         closed (snd (target pf \<lparr>clock = t0, written = [], closed = None\<rparr> hard f args)) =
           Some (t0 + d)"
  using assms by (simp add: target_fresh try_block_def send_def)

theorem send_failure_falls_back_witness:
  "sleep_then_return (1, 900) = Returns 1 900 \<and> pickling example_platform 900 = DumpFails \<and>
   error_pickling example_platform 900 \<noteq> DumpFails \<and>
   try_block example_platform \<lparr>clock = 2, written = [], closed = None\<rparr> False
     sleep_then_return (1, 900) =
       (Exc (PicklingError 900), \<lparr>clock = 3, written = [(2, Started)], closed = None\<rparr>) \<and>
   target example_platform \<lparr>clock = 2, written = [], closed = None\<rparr> False
     sleep_then_return (1, 900) =
       (Exited,
        \<lparr>clock = 3, written = [(2, Started), (3, Outcome True (PicklingError 900))],
         closed = Some 3\<rparr>)"
proof -
  have h: "sleep_then_return (1, 900) = Returns 1 900" "pickling example_platform 900 = DumpFails"
    and g: "error_pickling example_platform 900 \<noteq> DumpFails"
    by (simp_all add: example_defs)
  from send_failure_falls_back
         [where f = sleep_then_return and args = "(1, 900)" and pf = example_platform
            and ?t0.0 = 2 and hard = False, OF h] h g
  show ?thesis by simp
qed

section \<open>Cancelling before any call\<close>

text \<open>
  Claim C10. On a freshly constructed object \<^verbatim>\<open>cancel\<close> fails with the attribute error
  of the liveness query on \<^verbatim>\<open>None\<close>, leaves the object as it was, and does not raise the
  configured timeout failure.
\<close>

theorem cancel_before_call:
  "cancel (init f exc message timeout hard) =
     Some (Inl AttributeError, init f exc message timeout hard) \<and>
   cancel (init f exc message timeout hard) \<noteq>
     Some (Inl (TimeoutFailure exc message), init f exc message timeout hard)"
  by (simp add: cancel_def seq_def is_alive_def init_def throw_def)

end
